theory Spec2Isabelle
  imports Main "HOL-Library.Word"
begin

section \<open>Python string operations used by the sources\<close>

text \<open>
  Python strings are modelled as \<^typ>\<open>string\<close>, one \<^typ>\<open>char\<close> per code point below 256.
  \<open>str.lower\<close> maps \<open>A\<close>..\<open>Z\<close> and the upper-case letters of Latin-1 (\<open>0xC0\<close>..\<open>0xDE\<close>
  without the multiplication sign \<open>0xD7\<close>) to the letter 32 code points further on, and
  leaves every other code point below 256 as it is.
\<close>

definition lower_char :: "char \<Rightarrow> char" where
  "lower_char c =
     (let n = (of_char c :: nat)
      in if (65 \<le> n \<and> n \<le> 90) \<or> (192 \<le> n \<and> n \<le> 214) \<or> (216 \<le> n \<and> n \<le> 222)
         then char_of (n + 32) else c)"

definition lower :: "string \<Rightarrow> string" where
  "lower s = map lower_char s"

text \<open>\<open>str.rfind\<close> for a one-character needle: the highest index, or \<open>-1\<close>.\<close>

definition rfind :: "char \<Rightarrow> string \<Rightarrow> int" where
  "rfind c s =
     (case filter (\<lambda>i. s ! i = c) (rev [0..<length s]) of
        [] \<Rightarrow> - 1
      | i # _ \<Rightarrow> int i)"

text \<open>
  \<open>os.path.splitext\<close> of \<open>posixpath\<close> (separator \<open>/\<close>, no alternative separator):
  the extension starts at the last dot of the last path component, unless that
  component has nothing but dots in front of it.
\<close>

definition splitext :: "string \<Rightarrow> string \<times> string" where
  "splitext p =
     (let sepIndex = rfind (CHR ''/'') p;
          dotIndex = rfind (CHR ''.'') p
      in if dotIndex > sepIndex
            \<and> list_ex (\<lambda>i. p ! i \<noteq> CHR ''.'') [nat (sepIndex + 1)..<nat dotIndex]
         then (take (nat dotIndex) p, drop (nat dotIndex) p)
         else (p, []))"

text \<open>\<open>sep.join(parts)\<close>.\<close>

fun str_join :: "string \<Rightarrow> string list \<Rightarrow> string" where
  "str_join sep [] = []"
| "str_join sep [x] = x"
| "str_join sep (x # y # ys) = x @ sep @ str_join sep (y # ys)"


section \<open>The speech client as \<open>voice_agent.py\<close> sees it\<close>

datatype AudioEncoding = LINEAR16 | OGG_OPUS | WEBM_OPUS | MP3

text \<open>
  \<open>speech.RecognitionConfig\<close> with the fields the agent sets. A field the agent leaves
  out of the constructor call is \<^const>\<open>None\<close>.
\<close>

record RecognitionConfig =
  encoding :: AudioEncoding
  sample_rate_hertz :: "int option"
  language_code :: string
  enable_automatic_punctuation :: bool
  use_enhanced :: bool
  model :: string
  audio_channel_count :: "int option"

text \<open>
  One entry of \<open>response.results\<close>: the transcripts of its alternatives, best first.
  The field is a repeated one, so the list may be empty.
\<close>

datatype SpeechRecognitionResult = Result (alternatives: "string list")

text \<open>
  What one call of \<open>stt_client.recognize\<close> does: it raises (an exception of class
  \<open>Exception\<close>, the class both handlers of the agent catch), or returns a response with
  its list of results.
\<close>

datatype outcome = Raised | Response "SpeechRecognitionResult list"

type_synonym bytes = "8 word list"

text \<open>
  The client is an arbitrary state machine: each call sees the state the earlier calls
  left, so any sequence of responses and exceptions is some client.
\<close>

type_synonym 'st recognizer = "'st \<Rightarrow> RecognitionConfig \<Rightarrow> bytes \<Rightarrow> outcome \<times> 'st"

text \<open>One call as an observer of the client records it: the config sent, and what came back.\<close>

type_synonym call = "RecognitionConfig \<times> outcome"

text \<open>
  The exceptions that leave a function of the repository. \<open>OSError\<close> (with its
  subclasses) and \<open>ValueError\<close> are what \<open>open\<close> and \<open>read\<close> raise: the first on a file
  that is missing or cannot be read, the second on a path with a NUL character.
  \<open>RecursionError\<close> and \<open>ValueError\<close> are what \<open>json.loads\<close> raises, besides
  \<open>JSONDecodeError\<close>, on a string (on input nested deeper than the interpreter's
  recursion limit, and on an integer literal longer than the interpreter's digit limit).
\<close>

datatype error = OSError | TypeError | RecursionError | ValueError


section \<open>\<open>VoiceAgent.speech_to_text\<close>\<close>

text \<open>The config for a \<open>.webm\<close> file (lines 112-120).\<close>

definition webm_config :: RecognitionConfig where
  "webm_config =
     \<lparr>encoding = OGG_OPUS, sample_rate_hertz = Some 48000, language_code = ''en-US'',
      enable_automatic_punctuation = True, use_enhanced = True, model = ''latest_long'',
      audio_channel_count = Some 1\<rparr>"

text \<open>The config for every other file (lines 124-130).\<close>

definition default_config :: RecognitionConfig where
  "default_config =
     \<lparr>encoding = LINEAR16, sample_rate_hertz = None, language_code = ''en-US'',
      enable_automatic_punctuation = True, use_enhanced = True, model = ''latest_long'',
      audio_channel_count = None\<rparr>"

text \<open>The choice between the two, by the lower-cased extension (line 110).\<close>

definition primary_config :: "string \<Rightarrow> RecognitionConfig" where
  "primary_config file_ext = (if file_ext = ''.webm'' then webm_config else default_config)"

text \<open>The alternative encoding tried after an empty response (lines 149-156).\<close>

definition alternative_config :: RecognitionConfig where
  "alternative_config =
     \<lparr>encoding = WEBM_OPUS, sample_rate_hertz = Some 48000, language_code = ''en-US'',
      enable_automatic_punctuation = True, use_enhanced = True, model = ''latest_long'',
      audio_channel_count = None\<rparr>"

text \<open>The config of one fallback attempt (lines 186-193).\<close>

definition fallback_config :: "AudioEncoding \<Rightarrow> int \<Rightarrow> RecognitionConfig" where
  "fallback_config enc rate =
     \<lparr>encoding = enc, sample_rate_hertz = Some rate, language_code = ''en-US'',
      enable_automatic_punctuation = True, use_enhanced = True, model = ''latest_long'',
      audio_channel_count = None\<rparr>"

definition encodings :: "AudioEncoding list" where
  "encodings = [LINEAR16, OGG_OPUS, WEBM_OPUS, MP3]"

definition common_rates :: "int list" where
  "common_rates = [48000, 44100, 16000, 8000]"

text \<open>
  \<open>result.alternatives[0].transcript for result in response.results\<close>: the generator
  raises \<open>IndexError\<close> (here \<^const>\<open>None\<close>) at the first result without an alternative.
\<close>

fun first_transcripts :: "SpeechRecognitionResult list \<Rightarrow> string list option" where
  "first_transcripts [] = Some []"
| "first_transcripts (r # rs) =
     (case alternatives r of
        [] \<Rightarrow> None
      | a # _ \<Rightarrow> (case first_transcripts rs of None \<Rightarrow> None | Some ts \<Rightarrow> Some (a # ts)))"

definition join_transcripts :: "SpeechRecognitionResult list \<Rightarrow> string option" where
  "join_transcripts results = map_option (str_join '' '') (first_transcripts results)"

text \<open>
  The body of the outer \<open>try\<close> (lines 133-165). The result \<^const>\<open>None\<close> stands for an
  exception leaving the body: raised by either call of the client, or by the join.
\<close>

definition try_body ::
  "'st recognizer \<Rightarrow> RecognitionConfig \<Rightarrow> bytes \<Rightarrow> 'st \<Rightarrow> string option \<times> call list \<times> 'st" where
  "try_body stt config audio st =
     (case stt st config audio of
        (Raised, st1) \<Rightarrow> (None, [(config, Raised)], st1)
      | (Response results, st1) \<Rightarrow>
          if results \<noteq> [] then (join_transcripts results, [(config, Response results)], st1)
          else
            (case stt st1 alternative_config audio of
               (Raised, st2) \<Rightarrow>
                 (None, [(config, Response results), (alternative_config, Raised)], st2)
             | (Response results2, st2) \<Rightarrow>
                 (if results2 \<noteq> [] then join_transcripts results2
                  else Some ''No speech detected in audio file'',
                  [(config, Response results), (alternative_config, Response results2)], st2)))"

text \<open>
  The body of the inner \<open>try\<close> after the call (lines 196-202): the transcript to return,
  or \<^const>\<open>None\<close> when the loop goes on (no results, or an exception swallowed by
  \<open>except Exception as inner_e\<close>).
\<close>

definition attempt_result :: "outcome \<Rightarrow> string option" where
  "attempt_result out =
     (case out of
        Raised \<Rightarrow> None
      | Response results \<Rightarrow> if results \<noteq> [] then join_transcripts results else None)"

text \<open>The inner loop \<open>for rate in common_rates\<close>; \<^const>\<open>Some\<close> is the \<open>return\<close> in it.\<close>

fun sweep_rates ::
  "'st recognizer \<Rightarrow> bytes \<Rightarrow> AudioEncoding \<Rightarrow> int list \<Rightarrow> 'st \<Rightarrow> string option \<times> call list \<times> 'st" where
  "sweep_rates stt audio enc [] st = (None, [], st)"
| "sweep_rates stt audio enc (rate # rates) st =
     (let config = fallback_config enc rate
      in case stt st config audio of
           (out, st1) \<Rightarrow>
             (case attempt_result out of
                Some transcript \<Rightarrow> (Some transcript, [(config, out)], st1)
              | None \<Rightarrow>
                  (case sweep_rates stt audio enc rates st1 of
                     (r, calls, st2) \<Rightarrow> (r, (config, out) # calls, st2))))"

text \<open>The outer loop \<open>for encoding, encoding_name in encodings\<close>.\<close>

fun sweep_encodings ::
  "'st recognizer \<Rightarrow> bytes \<Rightarrow> AudioEncoding list \<Rightarrow> 'st \<Rightarrow> string option \<times> call list \<times> 'st" where
  "sweep_encodings stt audio [] st = (None, [], st)"
| "sweep_encodings stt audio (enc # encs) st =
     (case sweep_rates stt audio enc common_rates st of
        (Some transcript, calls, st1) \<Rightarrow> (Some transcript, calls, st1)
      | (None, calls, st1) \<Rightarrow>
          (case sweep_encodings stt audio encs st1 of
             (r, calls2, st2) \<Rightarrow> (r, calls @ calls2, st2)))"

text \<open>The handler \<open>except Exception as e\<close> of the outer \<open>try\<close> (lines 167-206).\<close>

definition except_handler ::
  "'st recognizer \<Rightarrow> bytes \<Rightarrow> 'st \<Rightarrow> string \<times> call list \<times> 'st" where
  "except_handler stt audio st =
     (case sweep_encodings stt audio encodings st of
        (Some transcript, calls, st1) \<Rightarrow> (transcript, calls, st1)
      | (None, calls, st1) \<Rightarrow>
          (''Could not transcribe audio. Speech recognition failed.'', calls, st1))"

text \<open>
  The whole method. \<open>fs\<close> is the file system: \<open>fs path\<close> is \<open>Inr\<close> of the content that
  \<open>open(path, "rb").read()\<close> gives, or \<open>Inl\<close> of the exception that opening or reading
  raises (\<open>OSError\<close> for a file that is missing or cannot be read, \<open>ValueError\<close> for a
  path with a NUL character). That statement stands outside every \<open>try\<close>, so the
  exception reaches the caller as it is. The result holds what the method returns or
  raises, the calls of the client it made in order, and the client's state afterwards.
\<close>

definition speech_to_text ::
  "(string \<Rightarrow> error + bytes) \<Rightarrow> 'st recognizer \<Rightarrow> string \<Rightarrow> 'st
     \<Rightarrow> (error + string) \<times> call list \<times> 'st" where
  "speech_to_text fs stt audio_file_path st =
     (let file_ext = lower (snd (splitext audio_file_path))
      in case fs audio_file_path of
           Inl e \<Rightarrow> (Inl e, [], st)
         | Inr content \<Rightarrow>
             (let config = primary_config file_ext
              in case try_body stt config content st of
                   (Some transcript, calls, st1) \<Rightarrow> (Inr transcript, calls, st1)
                 | (None, calls, st1) \<Rightarrow>
                     (case except_handler stt content st1 of
                        (transcript, calls2, st2) \<Rightarrow> (Inr transcript, calls @ calls2, st2))))"


section \<open>The observer's view of the fallback sweep\<close>

text \<open>
  The 16 configs of the two nested loops, flattened in the order the loops visit them.
\<close>

definition sweep_order :: "RecognitionConfig list" where
  "sweep_order = concat (map (\<lambda>enc. map (fallback_config enc) common_rates) encodings)"

text \<open>
  What the client answers when it is called with each config of a list in turn, from
  a given state, without stopping anywhere.
\<close>

fun run_all :: "'st recognizer \<Rightarrow> bytes \<Rightarrow> 'st \<Rightarrow> RecognitionConfig list \<Rightarrow> call list" where
  "run_all stt audio st [] = []"
| "run_all stt audio st (c # cs) =
     (case stt st c audio of (out, st1) \<Rightarrow> (c, out) # run_all stt audio st1 cs)"

text \<open>One loop over a list of configs, with the body of the inner loop of the source.\<close>

fun sweep_configs ::
  "'st recognizer \<Rightarrow> bytes \<Rightarrow> RecognitionConfig list \<Rightarrow> 'st \<Rightarrow> string option \<times> call list \<times> 'st" where
  "sweep_configs stt audio [] st = (None, [], st)"
| "sweep_configs stt audio (config # configs) st =
     (case stt st config audio of
        (out, st1) \<Rightarrow>
          (case attempt_result out of
             Some transcript \<Rightarrow> (Some transcript, [(config, out)], st1)
           | None \<Rightarrow>
               (case sweep_configs stt audio configs st1 of
                  (r, calls, st2) \<Rightarrow> (r, (config, out) # calls, st2))))"

text \<open>
  The join rule in the spec's words: the first alternative of each segment, in the
  order of the response, with one space between neighbours. It is compared with
  \<^const>\<open>join_transcripts\<close> on responses whose segments all have an alternative.
\<close>

definition first_alternative :: "SpeechRecognitionResult \<Rightarrow> string" where
  "first_alternative r = hd (alternatives r)"

definition spec_transcript :: "SpeechRecognitionResult list \<Rightarrow> string" where
  "spec_transcript segments =
     (case segments of
        [] \<Rightarrow> []
      | s # rest \<Rightarrow> first_alternative s @ concat (map (\<lambda>r. CHR '' '' # first_alternative r) rest))"




definition well_formed :: "outcome \<Rightarrow> bool" where
  "well_formed out =
     (case out of
        Raised \<Rightarrow> True
      | Response segments \<Rightarrow> list_all (\<lambda>s. alternatives s \<noteq> []) segments)"

text \<open>A client whose answer depends on the config and the audio only, not on its state.\<close>

definition deterministic :: "'st recognizer \<Rightarrow> bool" where
  "deterministic stt =
     (\<forall>st st' config audio. fst (stt st config audio) = fst (stt st' config audio))"

subsection \<open>Test clients\<close>

text \<open>
  A scripted client: its state is the list of outcomes still to come, one per call;
  past the end of the script it raises.
\<close>

definition scripted :: "outcome list recognizer" where
  "scripted st config audio = (case st of [] \<Rightarrow> (Raised, []) | out # rest \<Rightarrow> (out, rest))"

text \<open>
  A client that answers by config alone; its state counts the calls, so it changes with
  every call, and no answer depends on it.
\<close>

definition counting :: "(RecognitionConfig \<Rightarrow> outcome) \<Rightarrow> nat recognizer" where
  "counting f st config audio = (f config, Suc st)"

text \<open>
  The stub of the spec's third sweep test: it raises on every config but
  \<open>(OGG_OPUS, 44100)\<close>.
\<close>

definition only_ogg_44100 :: "RecognitionConfig \<Rightarrow> outcome" where
  "only_ogg_44100 config =
     (if config = fallback_config OGG_OPUS 44100
      then Response [Result [''hello''], Result [''world'', ''word'']] else Raised)"

text \<open>
  The stub of the spec's test of the secondary path: no segments for any config but
  WEBM_OPUS at 48000 Hz, and no exception.
\<close>

definition only_webm_48000 :: "RecognitionConfig \<Rightarrow> outcome" where
  "only_webm_48000 config =
     (if encoding config = WEBM_OPUS \<and> sample_rate_hertz config = Some 48000
      then Response [Result [''hello'']] else Response [])"

text \<open>
  A file system with two readable audio files. Every other path is a missing file, and
  a path with a NUL character is refused by \<open>open\<close> before any file is looked for.
\<close>

definition demo_fs :: "string \<Rightarrow> error + bytes" where
  "demo_fs path =
     (if CHR 0x00 \<in> set path then Inl ValueError
      else if path = ''uploads/temp_audio_1.WebM'' \<or> path = ''Test-audio.wav''
      then Inr [82, 73, 70, 70] else Inl OSError)"


section \<open>\<open>clean_llm_json\<close>\<close>

subsection \<open>The two regular expressions, as the backtracking matcher of \<open>re\<close> runs them\<close>

text \<open>\<open>str.isspace\<close>, which is also the class \<open>\s\<close> of a \<open>str\<close> pattern, below 256.\<close>

definition isspace :: "char \<Rightarrow> bool" where
  "isspace c =
     (let n = (of_char c :: nat)
      in (9 \<le> n \<and> n \<le> 13) \<or> (28 \<le> n \<and> n \<le> 32) \<or> n = 133 \<or> n = 160)"

definition strip :: "string \<Rightarrow> string" where
  "strip s = rev (dropWhile isspace (rev (dropWhile isspace s)))"

text \<open>
  The fragment of the pattern language the two patterns are written in. \<open>AnyChar\<close>
  is \<open>.\<close> under \<open>re.DOTALL\<close>; the pattern has one capturing group, group 1.
\<close>

datatype charclass = AnyChar | Whitespace

datatype regex =
    Lit string
  | Alt regex regex
  | Seq regex regex
  | Opt regex
  | Star charclass
  | LazyStar charclass
  | Group regex

fun in_class :: "charclass \<Rightarrow> char \<Rightarrow> bool" where
  "in_class AnyChar c = True"
| "in_class Whitespace c = isspace c"

text \<open>
  What may be left of the subject after \<open>c*\<close> (longest match first) and after \<open>c*?\<close>
  (shortest match first), in the order the matcher tries them.
\<close>

fun greedy_star :: "charclass \<Rightarrow> string \<Rightarrow> string list" where
  "greedy_star cl [] = [[]]"
| "greedy_star cl (x # xs) = (if in_class cl x then greedy_star cl xs @ [x # xs] else [x # xs])"

fun lazy_star :: "charclass \<Rightarrow> string \<Rightarrow> string list" where
  "lazy_star cl [] = [[]]"
| "lazy_star cl (x # xs) = (x # xs) # (if in_class cl x then lazy_star cl xs else [])"

text \<open>
  A state of the matcher: the rest of the subject, and the text of group 1 if the group
  has matched. \<open>matches p m\<close> lists every way \<open>p\<close> matches from \<open>m\<close>, in the order the
  backtracking matcher finds them: the head of the list is the match \<open>re\<close> reports.
\<close>

type_synonym mstate = "string \<times> string option"

fun matches :: "regex \<Rightarrow> mstate \<Rightarrow> mstate list" where
  "matches (Lit l) (s, g) = (if take (length l) s = l then [(drop (length l) s, g)] else [])"
| "matches (Alt a b) m = matches a m @ matches b m"
| "matches (Seq a b) m = concat (map (matches b) (matches a m))"
| "matches (Opt a) m = matches a m @ [m]"
| "matches (Star cl) (s, g) = map (\<lambda>r. (r, g)) (greedy_star cl s)"
| "matches (LazyStar cl) (s, g) = map (\<lambda>r. (r, g)) (lazy_star cl s)"
| "matches (Group a) (s, g) =
     map (\<lambda>(r, _). (r, Some (take (length s - length r) s))) (matches a (s, g))"

text \<open>\<open>re.search\<close>: the first match at the leftmost position that has one.\<close>

fun re_search :: "regex \<Rightarrow> string \<Rightarrow> mstate option" where
  "re_search p [] = (case matches p ([], None) of [] \<Rightarrow> None | m # _ \<Rightarrow> Some m)"
| "re_search p (x # xs) =
     (case matches p (x # xs, None) of [] \<Rightarrow> re_search p xs | m # _ \<Rightarrow> Some m)"

text \<open>The replacement template \<open>\1\<close>: a group that did not match expands to nothing.\<close>

definition expand_group1 :: "string option \<Rightarrow> string" where
  "expand_group1 g = (case g of None \<Rightarrow> [] | Some t \<Rightarrow> t)"

text \<open>
  \<open>re.sub(p, r'\1', s)\<close>, from left to right. After an empty match the matcher must
  advance: the next match at the same position has to be non-empty.
\<close>

function re_sub :: "regex \<Rightarrow> bool \<Rightarrow> string \<Rightarrow> string" where
  "re_sub p must_advance s =
     (case filter (\<lambda>(r, g). \<not> must_advance \<or> length r < length s) (matches p (s, None)) of
        (r, g) # _ \<Rightarrow>
          if length r < length s then expand_group1 g @ re_sub p False r
          else expand_group1 g @ re_sub p True s
      | [] \<Rightarrow> (case s of [] \<Rightarrow> [] | x # xs \<Rightarrow> x # re_sub p False xs))"
  by pat_completeness auto
termination
  apply (relation "measure (\<lambda>(p, ma, s). 2 * length s + (if ma then 0 else 1))")
     apply simp
    apply simp
   apply (auto simp: filter_eq_Cons_iff)
  done

declare re_sub.simps [simp del]

text \<open>The pattern of line 32.\<close>

definition fence_pattern :: regex where
  "fence_pattern =
     Seq (Lit ''```'') (Seq (Opt (Alt (Lit ''json'') (Lit ''javascript'')))
       (Seq (Star Whitespace) (Seq (Opt (Lit ''\<newline>''))
         (Seq (Group (LazyStar AnyChar)) (Seq (Opt (Lit ''\<newline>'')) (Lit ''```''))))))"

text \<open>The pattern of line 41.\<close>

definition json_pattern :: regex where
  "json_pattern =
     Group (Alt (Seq (Lit ''{'') (Seq (Star AnyChar) (Lit ''}'')))
                (Seq (Lit ''['') (Seq (Star AnyChar) (Lit '']''))))"

subsection \<open>The function\<close>

text \<open>
  \<open>json.loads\<close> is a parameter: on a string it returns a value, raises
  \<open>JSONDecodeError\<close>, or raises an exception of another class.
\<close>

datatype 'v loads_outcome = Parsed 'v | JSONDecodeError | Raises error

text \<open>
  The argument: \<open>None\<close>, a string, an object with an attribute \<open>text\<close>, an object with an
  attribute \<open>content\<close> and no \<open>text\<close> (both objects truthy, both attributes strings), or
  any other object, given by its truth value and its \<open>str()\<close>.
\<close>

datatype response =
    PyNone
  | PyStr string
  | TextObj string
  | ContentObj string
  | OtherObj bool string

fun truthy :: "response \<Rightarrow> bool" where
  "truthy PyNone = False"
| "truthy (PyStr s) = (s \<noteq> [])"
| "truthy (TextObj t) = True"
| "truthy (ContentObj t) = True"
| "truthy (OtherObj b s) = b"

text \<open>Lines 18-29.\<close>

fun response_text :: "response \<Rightarrow> string" where
  "response_text (TextObj t) = t"
| "response_text (ContentObj t) = t"
| "response_text (PyStr s) = s"
| "response_text (OtherObj b s) = s"
| "response_text PyNone = ''None''"

text \<open>
  The result is \<open>Inr (Some v)\<close> for a returned value, \<open>Inr None\<close> for a returned \<open>None\<close>
  and \<open>Inl e\<close> for an exception that leaves the function. Only \<open>JSONDecodeError\<close> is
  caught, by both handlers.
\<close>

definition clean_llm_json ::
  "(string \<Rightarrow> 'v loads_outcome) \<Rightarrow> response \<Rightarrow> error + 'v option" where
  "clean_llm_json loads response =
     (if \<not> truthy response then Inr None
      else
        (let text = response_text response;
             cleaned = strip (re_sub fence_pattern False text)
         in case loads cleaned of
              Parsed v \<Rightarrow> Inr (Some v)
            | Raises e \<Rightarrow> Inl e
            | JSONDecodeError \<Rightarrow>
                (case re_search json_pattern text of
                   None \<Rightarrow> Inr None
                 | Some (_, None) \<Rightarrow> Inl TypeError
                 | Some (_, Some g) \<Rightarrow>
                     (case loads g of
                        Parsed v \<Rightarrow> Inr (Some v)
                      | JSONDecodeError \<Rightarrow> Inr None
                      | Raises e \<Rightarrow> Inl e))))"

subsection \<open>A table of \<open>json.loads\<close>\<close>

datatype json = JString string | JNumber int | JArray "json list" | JObject "(string \<times> json) list"

text \<open>
  What \<open>json.loads\<close> returns on the strings the examples below pass to it; every other
  string is taken to be rejected.
\<close>

definition loads_table :: "string \<Rightarrow> json loads_outcome" where
  \<open>loads_table s =
     (if s = ''{"a": "```x```"}'' then Parsed (JObject [(''a'', JString ''```x```'')])
      else if s = ''{"a": "x"}'' then Parsed (JObject [(''a'', JString ''x'')])
      else if s = ''[1]'' then Parsed (JArray [JNumber 1])
      else JSONDecodeError)\<close>

text \<open>
  \<open>json.loads\<close> on strings of digits, with the interpreter's limit on the digits of an
  integer literal as a parameter (4300 in CPython from 3.11 on): a longer literal raises
  \<open>ValueError\<close>, which is not a \<open>JSONDecodeError\<close>.
\<close>

definition loads_digits :: "nat \<Rightarrow> string \<Rightarrow> nat loads_outcome" where
  "loads_digits int_max_str_digits s =
     (if s \<noteq> [] \<and> list_all (\<lambda>c. c \<in> set ''0123456789'') s \<and> (length s = 1 \<or> hd s \<noteq> CHR ''0'')
      then (if length s > int_max_str_digits then Raises ValueError
            else Parsed (foldl (\<lambda>n c. 10 * n + (of_char c - 48)) 0 s))
      else JSONDecodeError)"


section \<open>Lemmas on the sweep and the join\<close>

text \<open>The two nested loops are one loop over the flattened list of configs.\<close>

lemma sweep_rates_flat:
  "sweep_rates stt audio enc rates st = sweep_configs stt audio (map (fallback_config enc) rates) st"
  by (induction rates arbitrary: st) (auto split: prod.splits option.splits)

lemma sweep_configs_append:
  "sweep_configs stt audio (xs @ ys) st =
     (case sweep_configs stt audio xs st of
        (Some t, calls, st1) \<Rightarrow> (Some t, calls, st1)
      | (None, calls, st1) \<Rightarrow>
          (case sweep_configs stt audio ys st1 of (r, calls2, st2) \<Rightarrow> (r, calls @ calls2, st2)))"
  by (induction xs arbitrary: st) (auto split: prod.splits option.splits)

lemma sweep_encodings_flat:
  "sweep_encodings stt audio encs st =
     sweep_configs stt audio (concat (map (\<lambda>enc. map (fallback_config enc) common_rates) encs)) st"
  by (induction encs arbitrary: st)
     (auto simp: sweep_rates_flat sweep_configs_append split: prod.splits option.splits)

lemma sweep_configs_calls:
  "sweep_configs stt audio cfgs st = (r, calls, st') \<Longrightarrow>
     calls = take (length calls) (run_all stt audio st cfgs)"
  by (induction cfgs arbitrary: st r calls st') (auto split: prod.splits option.splits)

lemma sweep_configs_earlier:
  "sweep_configs stt audio cfgs st = (r, calls, st') \<Longrightarrow>
     \<forall>c \<in> set (butlast calls). attempt_result (snd c) = None"
  by (induction cfgs arbitrary: st r calls st') (fastforce split: prod.splits option.splits if_splits)+

lemma sweep_configs_None:
  "sweep_configs stt audio cfgs st = (None, calls, st') \<Longrightarrow>
     length calls = length cfgs \<and> (\<forall>c \<in> set calls. attempt_result (snd c) = None)"
  by (induction cfgs arbitrary: st calls st') (fastforce split: prod.splits option.splits if_splits)+

lemma sweep_configs_Some:
  "sweep_configs stt audio cfgs st = (Some t, calls, st') \<Longrightarrow>
     calls \<noteq> [] \<and> attempt_result (snd (last calls)) = Some t"
  by (induction cfgs arbitrary: st calls st') (auto split: prod.splits option.splits if_splits)

lemma sweep_configs_all_fail:
  "sweep_configs stt audio cfgs st = (r, calls, st') \<Longrightarrow>
     \<forall>c \<in> set calls. attempt_result (snd c) = None \<Longrightarrow> r = None"
  by (cases r) (auto dest!: sweep_configs_Some)

lemma sweep_order_explicit:
  "sweep_order =
     [fallback_config LINEAR16 48000, fallback_config LINEAR16 44100,
      fallback_config LINEAR16 16000, fallback_config LINEAR16 8000,
      fallback_config OGG_OPUS 48000, fallback_config OGG_OPUS 44100,
      fallback_config OGG_OPUS 16000, fallback_config OGG_OPUS 8000,
      fallback_config WEBM_OPUS 48000, fallback_config WEBM_OPUS 44100,
      fallback_config WEBM_OPUS 16000, fallback_config WEBM_OPUS 8000,
      fallback_config MP3 48000, fallback_config MP3 44100,
      fallback_config MP3 16000, fallback_config MP3 8000]"
  by (simp add: sweep_order_def encodings_def common_rates_def)

lemma length_sweep_order: "length sweep_order = 16"
  by (simp add: sweep_order_explicit)

lemma except_handler_flat:
  "except_handler stt audio st =
     (case sweep_configs stt audio sweep_order st of
        (Some t, calls, st1) \<Rightarrow> (t, calls, st1)
      | (None, calls, st1) \<Rightarrow>
          (''Could not transcribe audio. Speech recognition failed.'', calls, st1))"
  by (simp add: except_handler_def sweep_encodings_flat sweep_order_def)


lemma attempt_result_failed:
  "out = Raised \<or> out = Response [] \<Longrightarrow> attempt_result out = None"
  by (auto simp: attempt_result_def)

lemma first_transcripts_Some:
  "(\<forall>s \<in> set segments. alternatives s \<noteq> []) \<Longrightarrow>
     first_transcripts segments = Some (map first_alternative segments)"
  by (induction segments) (auto simp: first_alternative_def split: list.splits)


lemma str_join_space:
  "str_join '' '' (x # xs) = x @ concat (map (\<lambda>r. CHR '' '' # r) xs)"
  by (induction xs arbitrary: x) auto


lemma join_transcripts_total:
  "\<forall>s \<in> set segments. alternatives s \<noteq> [] \<Longrightarrow> segments \<noteq> [] \<Longrightarrow>
     join_transcripts segments = Some (spec_transcript segments)"
  by (cases segments)
     (auto simp: join_transcripts_def spec_transcript_def str_join_space comp_def
           first_transcripts_Some simp del: first_transcripts.simps)


lemma speech_to_text_readable:
  "fs path = Inr content \<Longrightarrow>
     speech_to_text fs stt path st =
       (case try_body stt (primary_config (lower (snd (splitext path)))) content st of
          (Some t, calls, st1) \<Rightarrow> (Inr t, calls, st1)
        | (None, calls, st1) \<Rightarrow>
            (case except_handler stt content st1 of
               (t, calls2, st2) \<Rightarrow> (Inr t, calls @ calls2, st2)))"
  by (simp add: speech_to_text_def Let_def)

lemma try_body_first_call:
  "try_body stt config audio st = (r, calls, st1) \<Longrightarrow> calls \<noteq> [] \<and> fst (hd calls) = config"
  by (auto simp: try_body_def split: prod.splits outcome.splits if_splits)

lemma try_body_first_answer:
  "try_body stt config audio st = (r, calls, st1) \<Longrightarrow>
     hd calls = (config, fst (stt st config audio))"
  by (auto simp: try_body_def split: prod.splits outcome.splits if_splits)



lemma except_handler_result:
  "except_handler stt audio st = (t, calls, st') \<Longrightarrow>
     calls \<noteq> [] \<and>
     (attempt_result (snd (last calls)) = Some t
      \<or> (t = ''Could not transcribe audio. Speech recognition failed.''
          \<and> length calls = 16 \<and> (\<forall>c \<in> set calls. attempt_result (snd c) = None)))"
proof -
  assume eh: "except_handler stt audio st = (t, calls, st')"
  obtain r c s where sw: "sweep_configs stt audio sweep_order st = (r, c, s)"
    by (cases "sweep_configs stt audio sweep_order st") auto
  show ?thesis
  proof (cases r)
    case None
    with sw eh have "calls = c" and t: "t = ''Could not transcribe audio. Speech recognition failed.''"
      by (simp_all add: except_handler_flat)
    moreover from sw None have "length c = 16" "\<forall>c \<in> set c. attempt_result (snd c) = None"
      using sweep_configs_None [of stt audio sweep_order st c s] by (simp_all add: length_sweep_order)
    ultimately show ?thesis by auto
  next
    case (Some u)
    with sw eh have "calls = c" "t = u" by (simp_all add: except_handler_flat)
    with sw Some show ?thesis
      using sweep_configs_Some [of stt audio sweep_order st u c s] by simp
  qed
qed



section \<open>The claims on \<open>speech_to_text\<close>\<close>

text \<open>
  Claim C6 (primary attempt selection). Whenever the audio file can be read, the method
  calls the client at least once, and its first call is the client applied, in the
  state the method found it in, to the content of the file and to the config chosen by
  the lower-cased extension of the path: for \<open>.webm\<close> OGG_OPUS at 48000 Hz with one
  audio channel, for every other extension LINEAR16 with no sample rate set (and no
  channel count). The comparison is case-insensitive because the extension is
  lower-cased first; the witness runs it on the extension \<open>.WebM\<close>.
\<close>
theorem primary_attempt_by_extension:
  assumes "fs path = Inr content"
  shows "fst (snd (speech_to_text fs stt path st)) \<noteq> [] \<and>
     hd (fst (snd (speech_to_text fs stt path st))) =
       (if lower (snd (splitext path)) = ''.webm''
        then (\<lparr>encoding = OGG_OPUS, sample_rate_hertz = Some 48000, language_code = ''en-US'',
               enable_automatic_punctuation = True, use_enhanced = True,
               model = ''latest_long'', audio_channel_count = Some 1\<rparr>,
              fst (stt st
                \<lparr>encoding = OGG_OPUS, sample_rate_hertz = Some 48000, language_code = ''en-US'',
                 enable_automatic_punctuation = True, use_enhanced = True,
                 model = ''latest_long'', audio_channel_count = Some 1\<rparr> content))
        else (\<lparr>encoding = LINEAR16, sample_rate_hertz = None, language_code = ''en-US'',
               enable_automatic_punctuation = True, use_enhanced = True,
               model = ''latest_long'', audio_channel_count = None\<rparr>,
              fst (stt st
                \<lparr>encoding = LINEAR16, sample_rate_hertz = None, language_code = ''en-US'',
                 enable_automatic_punctuation = True, use_enhanced = True,
                 model = ''latest_long'', audio_channel_count = None\<rparr> content)))"
proof -
  let ?cfg = "primary_config (lower (snd (splitext path)))"
  let ?calls = "fst (snd (speech_to_text fs stt path st))"
  obtain r c s where tb: "try_body stt ?cfg content st = (r, c, s)"
    by (cases "try_body stt ?cfg content st") auto
  from try_body_first_call [OF tb] try_body_first_answer [OF tb]
  have c: "c \<noteq> []" "hd c = (?cfg, fst (stt st ?cfg content))" by simp_all
  from tb have "\<exists>c2. ?calls = c @ c2"
    by (auto simp: speech_to_text_readable [where fs = fs and path = path, OF assms]
        split: option.splits prod.splits)
  with c have "?calls \<noteq> []" "hd ?calls = (?cfg, fst (stt st ?cfg content))" by auto
  then show ?thesis
    by (simp add: primary_config_def webm_config_def default_config_def)
qed

lemma ext_demo_webm: "lower (snd (splitext ''uploads/temp_audio_1.WebM'')) = ''.webm''"
  by code_simp

lemma ext_demo_wav: "lower (snd (splitext ''Test-audio.wav'')) = ''.wav''"
  by code_simp

theorem primary_attempt_by_extension_witness:
  "demo_fs ''uploads/temp_audio_1.WebM'' = Inr [82, 73, 70, 70] \<and>
   lower (snd (splitext ''uploads/temp_audio_1.WebM'')) = ''.webm'' \<and>
   hd (fst (snd (speech_to_text demo_fs scripted ''uploads/temp_audio_1.WebM''
      [Response [Result [''hello''], Result [''world'']]]))) =
     (\<lparr>encoding = OGG_OPUS, sample_rate_hertz = Some 48000, language_code = ''en-US'',
       enable_automatic_punctuation = True, use_enhanced = True,
       model = ''latest_long'', audio_channel_count = Some 1\<rparr>,
      Response [Result [''hello''], Result [''world'']])"
proof -
  have f: "demo_fs ''uploads/temp_audio_1.WebM'' = Inr [82, 73, 70, 70]"
    by (simp add: demo_fs_def)
  from primary_attempt_by_extension [where fs = demo_fs
      and path = "''uploads/temp_audio_1.WebM''" and stt = scripted
      and st = "[Response [Result [''hello''], Result [''world'']]]", OF f, THEN conjunct2] f
  show ?thesis by (simp add: ext_demo_webm scripted_def)
qed







lemma map_fst_run_all: "map fst (run_all stt audio st cfgs) = cfgs"
  by (induction cfgs arbitrary: st) (auto split: prod.splits)

lemma except_handler_calls:
  assumes "except_handler stt audio st = (t, calls, st')"
  shows "calls = take (length calls) (run_all stt audio st sweep_order)"
    and "\<forall>c \<in> set (butlast calls). attempt_result (snd c) = None"
proof -
  obtain r c s where sw: "sweep_configs stt audio sweep_order st = (r, c, s)"
    by (cases "sweep_configs stt audio sweep_order st") auto
  with assms have "calls = c"
    by (cases r) (simp_all add: except_handler_flat)
  with sweep_configs_calls [OF sw] sweep_configs_earlier [OF sw]
  show "calls = take (length calls) (run_all stt audio st sweep_order)"
    and "\<forall>c \<in> set (butlast calls). attempt_result (snd c) = None"
    by simp_all
qed








lemma length_run_all: "length (run_all stt audio st cfgs) = length cfgs"
  by (induction cfgs arbitrary: st) (auto split: prod.splits)

lemma sweep_configs_run_all:
  "\<forall>c \<in> set (run_all stt audio st cfgs). attempt_result (snd c) = None \<Longrightarrow>
     fst (sweep_configs stt audio cfgs st) = None \<and>
     fst (snd (sweep_configs stt audio cfgs st)) = run_all stt audio st cfgs"
proof (induction cfgs arbitrary: st)
  case Nil
  show ?case by simp
next
  case (Cons c cfgs)
  obtain out st1 where s: "stt st c audio = (out, st1)"
    by (cases "stt st c audio") auto
  with Cons.prems have a: "attempt_result out = None"
    and rest: "\<forall>c \<in> set (run_all stt audio st1 cfgs). attempt_result (snd c) = None"
    by simp_all
  obtain r calls st2 where sw: "sweep_configs stt audio cfgs st1 = (r, calls, st2)"
    by (cases "sweep_configs stt audio cfgs st1") auto
  with Cons.IH [OF rest] s a show ?case
    by simp
qed

lemma except_handler_all_fail:
  assumes "\<forall>c \<in> set (run_all stt audio st sweep_order). attempt_result (snd c) = None"
  shows "fst (except_handler stt audio st) = ''Could not transcribe audio. Speech recognition failed.''"
    and "fst (snd (except_handler stt audio st)) = run_all stt audio st sweep_order"
  using sweep_configs_run_all [OF assms]
  by (auto simp: except_handler_flat split: prod.splits option.splits)

text \<open>
  Claim C5. Let the file be readable and let an exception leave the \<open>try\<close> block, so that
  the fallback sweep is entered (in state \<open>st1\<close> of the client). If the client, asked
  the sixteen configurations of the sweep in turn, raises or returns zero segments on
  every one of them, then \<open>speech_to_text\<close> returns exactly \<open>Could not transcribe audio.
  Speech recognition failed.\<close>, after all sixteen attempts, in the order of the sweep;
  and that string differs from \<open>No speech detected in audio file\<close>, the string of the
  secondary path.
\<close>
theorem sweep_exhausted_sentinel:
  assumes "fs path = Inr content"
    and "try_body stt (primary_config (lower (snd (splitext path)))) content st = (None, calls1, st1)"
    and "\<forall>c \<in> set (run_all stt content st1 sweep_order). snd c = Raised \<or> snd c = Response []"
  shows "fst (speech_to_text fs stt path st) =
           Inr ''Could not transcribe audio. Speech recognition failed.'' \<and>
         fst (snd (speech_to_text fs stt path st)) = calls1 @ run_all stt content st1 sweep_order \<and>
         length (run_all stt content st1 sweep_order) = 16 \<and>
         ''Could not transcribe audio. Speech recognition failed.'' \<noteq>
           ''No speech detected in audio file''"
proof -
  from assms(3)
  have "\<forall>c \<in> set (run_all stt content st1 sweep_order). attempt_result (snd c) = None"
    by (auto simp: attempt_result_failed)
  from except_handler_all_fail [OF this]
  have eh: "except_handler stt content st1 =
      (''Could not transcribe audio. Speech recognition failed.'',
       run_all stt content st1 sweep_order, snd (snd (except_handler stt content st1)))"
    by (cases "except_handler stt content st1") simp
  from assms(2)
  have s: "speech_to_text fs stt path st =
      (case except_handler stt content st1 of
         (t, calls2, st2) \<Rightarrow> (Inr t, calls1 @ calls2, st2))"
    by (simp add: speech_to_text_readable [where fs = fs and path = path, OF assms(1)])
  have "speech_to_text fs stt path st =
      (Inr ''Could not transcribe audio. Speech recognition failed.'',
       calls1 @ run_all stt content st1 sweep_order, snd (snd (except_handler stt content st1)))"
    unfolding s by (subst eh) simp
  then show ?thesis by (simp add: length_run_all length_sweep_order)
qed

lemma silent_try_body:
  "try_body scripted (primary_config (lower (snd (splitext ''Test-audio.wav'')))) [82, 73, 70, 70] [] =
     (None, [(default_config, Raised)], [])"
  by code_simp

lemma silent_sweep:
  "\<forall>c \<in> set (run_all scripted [82, 73, 70, 70] [] sweep_order). snd c = Raised \<or> snd c = Response []"
  by code_simp

theorem sweep_exhausted_sentinel_witness:
  "demo_fs ''Test-audio.wav'' = Inr [82, 73, 70, 70] \<and>
   try_body scripted default_config [82, 73, 70, 70] [] = (None, [(default_config, Raised)], []) \<and>
   fst (speech_to_text demo_fs scripted ''Test-audio.wav'' []) =
     Inr ''Could not transcribe audio. Speech recognition failed.'' \<and>
   length (fst (snd (speech_to_text demo_fs scripted ''Test-audio.wav'' []))) = 17"
proof -
  have f: "demo_fs ''Test-audio.wav'' = Inr [82, 73, 70, 70]"
    by (simp add: demo_fs_def)
  have tb: "try_body scripted default_config [82, 73, 70, 70] [] = (None, [(default_config, Raised)], [])"
    by code_simp
  from sweep_exhausted_sentinel [where fs = demo_fs and path = "''Test-audio.wav''",
      OF f silent_try_body silent_sweep]
  have "fst (speech_to_text demo_fs scripted ''Test-audio.wav'' []) =
          Inr ''Could not transcribe audio. Speech recognition failed.''"
    and "length (fst (snd (speech_to_text demo_fs scripted ''Test-audio.wav'' []))) = 17"
    by simp_all
  with f tb show ?thesis by simp
qed

lemma deterministicD:
  "deterministic stt \<Longrightarrow> fst (stt st config audio) = fst (stt st' config audio)"
  by (simp add: deterministic_def)

lemma sweep_configs_deterministic:
  assumes "deterministic stt"
  shows "fst (sweep_configs stt audio cfgs st) = fst (sweep_configs stt audio cfgs st') \<and>
         fst (snd (sweep_configs stt audio cfgs st)) = fst (snd (sweep_configs stt audio cfgs st'))"
proof (induction cfgs arbitrary: st st')
  case Nil
  show ?case by simp
next
  case (Cons c cfgs)
  obtain out st1 where s: "stt st c audio = (out, st1)"
    by (cases "stt st c audio") auto
  obtain out' st1' where s': "stt st' c audio = (out', st1')"
    by (cases "stt st' c audio") auto
  from deterministicD [OF assms, of st c audio st'] s s' have o: "out' = out" by simp
  obtain r calls st2 where sw: "sweep_configs stt audio cfgs st1 = (r, calls, st2)"
    by (cases "sweep_configs stt audio cfgs st1") auto
  obtain r' calls' st2' where sw': "sweep_configs stt audio cfgs st1' = (r', calls', st2')"
    by (cases "sweep_configs stt audio cfgs st1'") auto
  from Cons.IH [of st1 st1'] sw sw' have "r' = r" "calls' = calls" by simp_all
  with s s' o sw sw' show ?case
    by (simp split: option.splits)
qed

lemma except_handler_deterministic:
  assumes "deterministic stt"
  shows "fst (except_handler stt audio st) = fst (except_handler stt audio st') \<and>
         fst (snd (except_handler stt audio st)) = fst (snd (except_handler stt audio st'))"
proof -
  obtain r calls st2 where sw: "sweep_configs stt audio sweep_order st = (r, calls, st2)"
    by (cases "sweep_configs stt audio sweep_order st") auto
  obtain r' calls' st2' where sw': "sweep_configs stt audio sweep_order st' = (r', calls', st2')"
    by (cases "sweep_configs stt audio sweep_order st'") auto
  from sweep_configs_deterministic [OF assms, of audio sweep_order st st'] sw sw'
  have "r' = r" "calls' = calls" by simp_all
  with sw sw' show ?thesis
    by (simp add: except_handler_flat split: option.splits)
qed

lemma try_body_deterministic:
  assumes "deterministic stt"
  shows "fst (try_body stt config audio st) = fst (try_body stt config audio st') \<and>
         fst (snd (try_body stt config audio st)) = fst (snd (try_body stt config audio st'))"
proof -
  obtain out st1 where s: "stt st config audio = (out, st1)"
    by (cases "stt st config audio") auto
  obtain out' st1' where s': "stt st' config audio = (out', st1')"
    by (cases "stt st' config audio") auto
  from deterministicD [OF assms, of st config audio st'] s s' have o: "out' = out" by simp
  obtain out2 st2 where t: "stt st1 alternative_config audio = (out2, st2)"
    by (cases "stt st1 alternative_config audio") auto
  obtain out2' st2' where t': "stt st1' alternative_config audio = (out2', st2')"
    by (cases "stt st1' alternative_config audio") auto
  from deterministicD [OF assms, of st1 alternative_config audio st1'] t t'
  have o2: "out2' = out2" by simp
  from s s' o t t' o2 show ?thesis
    by (simp add: try_body_def split: outcome.splits)
qed

text \<open>
  Claim C8. For a deterministic client (its answer depends on the config and the audio
  only), two calls of \<open>speech_to_text\<close> on files with the same content and the same
  extension (compared after lower-casing, as the source does) return the same string and
  make the same calls with the same answers, whatever state each call finds the client
  in: in particular the state the first call has left behind.
\<close>
theorem speech_to_text_deterministic:
  assumes "deterministic stt"
    and "fs path = Inr content"
    and "fs' path' = Inr content"
    and "lower (snd (splitext path)) = lower (snd (splitext path'))"
  shows "fst (speech_to_text fs stt path st) = fst (speech_to_text fs' stt path' st') \<and>
         fst (snd (speech_to_text fs stt path st)) = fst (snd (speech_to_text fs' stt path' st'))"
proof -
  let ?config = "primary_config (lower (snd (splitext path)))"
  obtain r calls st1 where tb: "try_body stt ?config content st = (r, calls, st1)"
    by (cases "try_body stt ?config content st") auto
  obtain r' calls' st1' where tb': "try_body stt ?config content st' = (r', calls', st1')"
    by (cases "try_body stt ?config content st'") auto
  from try_body_deterministic [OF assms(1), of ?config content st st'] tb tb'
  have eq: "r' = r" "calls' = calls" by simp_all
  obtain t calls2 st2 where eh: "except_handler stt content st1 = (t, calls2, st2)"
    by (cases "except_handler stt content st1") auto
  obtain t' calls2' st2' where eh': "except_handler stt content st1' = (t', calls2', st2')"
    by (cases "except_handler stt content st1'") auto
  from except_handler_deterministic [OF assms(1), of content st1 st1'] eh eh'
  have eq2: "t' = t" "calls2' = calls2" by simp_all
  have a: "speech_to_text fs stt path st =
      (case r of Some t0 \<Rightarrow> (Inr t0, calls, st1) | None \<Rightarrow> (Inr t, calls @ calls2, st2))"
    by (simp add: speech_to_text_readable [where fs = fs and path = path, OF assms(2)] tb eh
        split: option.splits)
  have b: "speech_to_text fs' stt path' st' =
      (case r of Some t0 \<Rightarrow> (Inr t0, calls, st1') | None \<Rightarrow> (Inr t, calls @ calls2, st2'))"
    using tb' eh' eq eq2 assms(4)
    by (simp add: speech_to_text_readable [where fs = fs' and path = path', OF assms(3)]
        split: option.splits)
  show ?thesis unfolding a b by (simp split: option.splits)
qed

lemma counting_deterministic: "deterministic (counting f)"
  by (simp add: deterministic_def counting_def)

theorem speech_to_text_deterministic_witness:
  "deterministic (counting only_ogg_44100) \<and>
   demo_fs ''Test-audio.wav'' = Inr [82, 73, 70, 70] \<and>
   speech_to_text demo_fs (counting only_ogg_44100) ''Test-audio.wav'' 0 =
     (Inr ''hello world'',
      [(default_config, Raised),
       (fallback_config LINEAR16 48000, Raised), (fallback_config LINEAR16 44100, Raised),
       (fallback_config LINEAR16 16000, Raised), (fallback_config LINEAR16 8000, Raised),
       (fallback_config OGG_OPUS 48000, Raised),
       (fallback_config OGG_OPUS 44100, Response [Result [''hello''], Result [''world'', ''word'']])],
      7) \<and>
   fst (speech_to_text demo_fs (counting only_ogg_44100) ''Test-audio.wav'' 7) = Inr ''hello world''"
proof -
  have f: "demo_fs ''Test-audio.wav'' = Inr [82, 73, 70, 70]"
    by (simp add: demo_fs_def)
  have run: "speech_to_text demo_fs (counting only_ogg_44100) ''Test-audio.wav'' 0 =
     (Inr ''hello world'',
      [(default_config, Raised),
       (fallback_config LINEAR16 48000, Raised), (fallback_config LINEAR16 44100, Raised),
       (fallback_config LINEAR16 16000, Raised), (fallback_config LINEAR16 8000, Raised),
       (fallback_config OGG_OPUS 48000, Raised),
       (fallback_config OGG_OPUS 44100, Response [Result [''hello''], Result [''world'', ''word'']])],
      7)"
    by code_simp
  from speech_to_text_deterministic [where fs = demo_fs and fs' = demo_fs
      and path = "''Test-audio.wav''" and path' = "''Test-audio.wav''" and st = 7 and st' = 0,
      OF counting_deterministic f f refl]
  have "fst (speech_to_text demo_fs (counting only_ogg_44100) ''Test-audio.wav'' 7) = Inr ''hello world''"
    by (simp add: run)
  with counting_deterministic f run show ?thesis by simp
qed

lemma primary_config_not_alternative: "primary_config ext \<noteq> alternative_config"
  by (simp add: primary_config_def webm_config_def default_config_def alternative_config_def)

lemma primary_config_not_in_sweep: "primary_config ext \<notin> set sweep_order"
  by (simp add: sweep_order_explicit primary_config_def webm_config_def default_config_def
      fallback_config_def)

lemma except_handler_configs:
  assumes "except_handler stt audio st = (t, calls, st')"
  shows "set (map fst calls) \<subseteq> set sweep_order"
proof -
  from except_handler_calls(1) [OF assms]
  have "map fst calls = take (length calls) (map fst (run_all stt audio st sweep_order))"
    by (metis take_map)
  then have "map fst calls = take (length calls) sweep_order"
    by (simp add: map_fst_run_all)
  then show ?thesis by (metis set_take_subset)
qed

lemma join_transcripts_well_formed:
  "well_formed (Response segments) \<Longrightarrow> segments \<noteq> [] \<Longrightarrow>
     join_transcripts segments = Some (spec_transcript segments)"
  by (simp add: well_formed_def list_all_iff join_transcripts_total)

lemma speech_to_text_by_answers:
  assumes "fs path = Inr content"
    and "stt st (primary_config (lower (snd (splitext path)))) content = (out1, st1)"
    and "stt st1 alternative_config content = (out2, st2)"
    and "well_formed out1"
    and "well_formed out2"
  shows "speech_to_text fs stt path st =
     (case out1 of
        Raised \<Rightarrow>
          (case except_handler stt content st1 of
             (t, calls2, st3) \<Rightarrow>
               (Inr t, (primary_config (lower (snd (splitext path))), Raised) # calls2, st3))
      | Response segments \<Rightarrow>
          if segments \<noteq> []
          then (Inr (spec_transcript segments),
                [(primary_config (lower (snd (splitext path))), Response segments)], st1)
          else
            (case out2 of
               Raised \<Rightarrow>
                 (case except_handler stt content st2 of
                    (t, calls2, st3) \<Rightarrow>
                      (Inr t,
                       [(primary_config (lower (snd (splitext path))), Response []),
                        (alternative_config, Raised)] @ calls2, st3))
             | Response segments2 \<Rightarrow>
                 (Inr (if segments2 \<noteq> [] then spec_transcript segments2
                       else ''No speech detected in audio file''),
                  [(primary_config (lower (snd (splitext path))), Response []),
                   (alternative_config, Response segments2)], st2)))"
proof (cases out1)
  case Raised
  with assms(2) show ?thesis
    by (simp add: speech_to_text_readable [where fs = fs and path = path, OF assms(1)]
        try_body_def)
next
  case (Response segments)
  show ?thesis
  proof (cases "segments = []")
    case False
    with Response assms(2,4) show ?thesis
      by (simp add: speech_to_text_readable [where fs = fs and path = path, OF assms(1)]
          try_body_def join_transcripts_well_formed)
  next
    case True
    show ?thesis
    proof (cases out2)
      case Raised
      with Response True assms(2,3) show ?thesis
        by (simp add: speech_to_text_readable [where fs = fs and path = path, OF assms(1)]
            try_body_def)
    next
      case (Response segments2)
      with \<open>out1 = Response segments\<close> True assms(2,3,5) show ?thesis
        by (cases "segments2 = []")
          (simp_all add: speech_to_text_readable [where fs = fs and path = path, OF assms(1)]
            try_body_def join_transcripts_well_formed)
    qed
  qed
qed


lemma primary_not_first_sweep: "primary_config ext \<noteq> fallback_config LINEAR16 48000"
  by (simp add: primary_config_def webm_config_def default_config_def fallback_config_def)

lemma alternative_not_first_sweep: "alternative_config \<noteq> fallback_config LINEAR16 48000"
  by (simp add: alternative_config_def fallback_config_def)

lemma except_handler_first_config:
  assumes "except_handler stt audio st = (t, calls, st')"
  shows "fallback_config LINEAR16 48000 \<in> set (map fst calls)"
proof -
  from except_handler_result [OF assms] have ne: "calls \<noteq> []" by simp
  from except_handler_calls(1) [OF assms]
  have "map fst calls = take (length calls) (map fst (run_all stt audio st sweep_order))"
    by (metis take_map)
  then have m: "map fst calls = take (length calls) sweep_order"
    by (simp add: map_fst_run_all)
  from ne obtain c cs where "calls = c # cs" by (cases calls) auto
  with m have "map fst calls = fallback_config LINEAR16 48000 # tl (map fst calls)"
    by (simp add: sweep_order_explicit)
  then show ?thesis by (metis list.set_intros(1))
qed

lemma sweep_retries_webm_rate:
  "fallback_config OGG_OPUS 48000 = webm_config\<lparr>audio_channel_count := None\<rparr>"
  by (simp add: fallback_config_def webm_config_def)

text \<open>
  Claim C3, as amended. Let the file be readable, let \<open>out1\<close> be the client's answer to
  the primary call and \<open>out2\<close> its answer to the secondary WEBM_OPUS call in the state
  the primary call left, both with an alternative in every segment. If the primary call
  returns at least one segment, the result is its transcript and no further call is
  made. If it returns zero segments and the secondary call returns, the result is the
  secondary transcript or the empty-result string, and these two calls are the only
  ones. The sweep is entered in the two remaining cases, and only then (its first
  configuration, LINEAR16 at 48000 Hz, is among the calls exactly then): when the primary
  call raises, and when the primary call returns zero segments and the secondary call
  raises. No call after the first is made with the primary config; the sweep's pair
  OGG_OPUS at 48000 Hz is the \<open>.webm\<close> primary config without its channel count.
\<close>
theorem sweep_entered_on_exception:
  assumes "fs path = Inr content"
    and "stt st (primary_config (lower (snd (splitext path)))) content = (out1, st1)"
    and "stt st1 alternative_config content = (out2, st2)"
    and "well_formed out1"
    and "well_formed out2"
  shows "speech_to_text fs stt path st =
     (case out1 of
        Raised \<Rightarrow>
          (case except_handler stt content st1 of
             (t, calls2, st3) \<Rightarrow>
               (Inr t, (primary_config (lower (snd (splitext path))), Raised) # calls2, st3))
      | Response segments \<Rightarrow>
          if segments \<noteq> []
          then (Inr (spec_transcript segments),
                [(primary_config (lower (snd (splitext path))), Response segments)], st1)
          else
            (case out2 of
               Raised \<Rightarrow>
                 (case except_handler stt content st2 of
                    (t, calls2, st3) \<Rightarrow>
                      (Inr t,
                       [(primary_config (lower (snd (splitext path))), Response []),
                        (alternative_config, Raised)] @ calls2, st3))
             | Response segments2 \<Rightarrow>
                 (Inr (if segments2 \<noteq> [] then spec_transcript segments2
                       else ''No speech detected in audio file''),
                  [(primary_config (lower (snd (splitext path))), Response []),
                   (alternative_config, Response segments2)], st2))) \<and>
     (fallback_config LINEAR16 48000 \<in> set (map fst (fst (snd (speech_to_text fs stt path st)))))
       = (out1 = Raised \<or> out1 = Response [] \<and> out2 = Raised) \<and>
     primary_config (lower (snd (splitext path)))
       \<notin> set (map fst (tl (fst (snd (speech_to_text fs stt path st))))) \<and>
     fallback_config OGG_OPUS 48000 = webm_config\<lparr>audio_channel_count := None\<rparr>"
proof -
  let ?cfg = "primary_config (lower (snd (splitext path)))"
  let ?calls = "fst (snd (speech_to_text fs stt path st))"
  note eq = speech_to_text_by_answers [where fs = fs and path = path and stt = stt and st = st
      and content = content and ?out1.0 = out1 and ?st1.0 = st1 and ?out2.0 = out2
      and ?st2.0 = st2, OF assms]
  have inner: "(fallback_config LINEAR16 48000 \<in> set (map fst ?calls))
       = (out1 = Raised \<or> out1 = Response [] \<and> out2 = Raised) \<and>
     ?cfg \<notin> set (map fst (tl ?calls))"
  proof (cases out1)
    case Raised
    obtain t calls2 st3 where eh: "except_handler stt content st1 = (t, calls2, st3)"
      by (cases "except_handler stt content st1") auto
    from eq Raised eh have c: "?calls = (?cfg, Raised) # calls2" by simp
    from except_handler_configs [OF eh] primary_config_not_in_sweep [of "lower (snd (splitext path))"]
    have "?cfg \<notin> set (map fst calls2)" by auto
    with except_handler_first_config [OF eh] Raised show ?thesis
      unfolding c by simp
  next
    case (Response segments)
    show ?thesis
    proof (cases "segments = []")
      case False
      from eq Response False have c: "?calls = [(?cfg, Response segments)]" by simp
      from Response False primary_not_first_sweep [of "lower (snd (splitext path))"]
      show ?thesis unfolding c by auto
    next
      case True
      show ?thesis
      proof (cases out2)
        case Raised
        obtain t calls2 st3 where eh: "except_handler stt content st2 = (t, calls2, st3)"
          by (cases "except_handler stt content st2") auto
        from eq Response True Raised eh
        have c: "?calls = (?cfg, Response []) # (alternative_config, Raised) # calls2" by simp
        from except_handler_configs [OF eh] primary_config_not_in_sweep [of "lower (snd (splitext path))"]
        have "?cfg \<notin> set (map fst calls2)" by auto
        with except_handler_first_config [OF eh] Response True Raised
          primary_config_not_alternative [of "lower (snd (splitext path))"]
        show ?thesis unfolding c by simp
      next
        case (Response segments2)
        from eq \<open>out1 = Response segments\<close> True Response
        have c: "?calls = [(?cfg, Response []), (alternative_config, Response segments2)]" by simp
        from \<open>out1 = Response segments\<close> True Response
          primary_not_first_sweep [of "lower (snd (splitext path))"]
          alternative_not_first_sweep
          primary_config_not_alternative [of "lower (snd (splitext path))"]
        show ?thesis unfolding c by auto
      qed
    qed
  qed
  from eq inner sweep_retries_webm_rate show ?thesis by (intro conjI) simp_all
qed

lemma secondary_raises_handler:
  "except_handler scripted [82, 73, 70, 70] [Response [Result [''hi'']]] =
     (''hi'', [(fallback_config LINEAR16 48000, Response [Result [''hi'']])], [])"
  by code_simp

lemma secondary_raises_primary:
  "scripted [Response [], Raised, Response [Result [''hi'']]]
       (primary_config (lower (snd (splitext ''Test-audio.wav'')))) [82, 73, 70, 70] =
     (Response [], [Raised, Response [Result [''hi'']]])"
  by (simp add: scripted_def)

lemma secondary_raises_secondary:
  "scripted [Raised, Response [Result [''hi'']]] alternative_config [82, 73, 70, 70] =
     (Raised, [Response [Result [''hi'']]])"
  by (simp add: scripted_def)

theorem sweep_entered_on_exception_witness:
  "demo_fs ''Test-audio.wav'' = Inr [82, 73, 70, 70] \<and>
   scripted [Response [], Raised, Response [Result [''hi'']]] default_config [82, 73, 70, 70] =
     (Response [], [Raised, Response [Result [''hi'']]]) \<and>
   scripted [Raised, Response [Result [''hi'']]] alternative_config [82, 73, 70, 70] =
     (Raised, [Response [Result [''hi'']]]) \<and>
   well_formed (Response []) \<and> well_formed Raised \<and>
   speech_to_text demo_fs scripted ''Test-audio.wav''
       [Response [], Raised, Response [Result [''hi'']]] =
     (Inr ''hi'',
      [(default_config, Response []), (alternative_config, Raised),
       (fallback_config LINEAR16 48000, Response [Result [''hi'']])], [])"
proof -
  have f: "demo_fs ''Test-audio.wav'' = Inr [82, 73, 70, 70]"
    by (simp add: demo_fs_def)
  have p: "scripted [Response [], Raised, Response [Result [''hi'']]] default_config [82, 73, 70, 70] =
     (Response [], [Raised, Response [Result [''hi'']]])"
    by (simp add: scripted_def)
  have w1: "well_formed (Response [])" and w2: "well_formed Raised"
    by (simp_all add: well_formed_def)
  have e: "primary_config (lower (snd (splitext ''Test-audio.wav''))) = default_config"
    by (simp add: ext_demo_wav primary_config_def)
  from sweep_entered_on_exception [where fs = demo_fs and path = "''Test-audio.wav''"
      and stt = scripted and st = "[Response [], Raised, Response [Result [''hi'']]]"
      and content = "[82, 73, 70, 70]" and ?out1.0 = "Response []"
      and ?st1.0 = "[Raised, Response [Result [''hi'']]]" and ?out2.0 = Raised
      and ?st2.0 = "[Response [Result [''hi'']]]",
      OF f secondary_raises_primary secondary_raises_secondary w1 w2, THEN conjunct1]
  have "speech_to_text demo_fs scripted ''Test-audio.wav''
       [Response [], Raised, Response [Result [''hi'']]] =
     (Inr ''hi'',
      [(default_config, Response []), (alternative_config, Raised),
       (fallback_config LINEAR16 48000, Response [Result [''hi'']])], [])"
    by (simp add: secondary_raises_handler e)
  with f p secondary_raises_secondary w1 w2 show ?thesis by simp
qed

theorem sweep_after_secondary_counterexample:
  "speech_to_text demo_fs scripted ''Test-audio.wav'' [Response []] =
     (Inr ''Could not transcribe audio. Speech recognition failed.'',
      [(default_config, Response []), (alternative_config, Raised),
       (fallback_config LINEAR16 48000, Raised), (fallback_config LINEAR16 44100, Raised),
       (fallback_config LINEAR16 16000, Raised), (fallback_config LINEAR16 8000, Raised),
       (fallback_config OGG_OPUS 48000, Raised), (fallback_config OGG_OPUS 44100, Raised),
       (fallback_config OGG_OPUS 16000, Raised), (fallback_config OGG_OPUS 8000, Raised),
       (fallback_config WEBM_OPUS 48000, Raised), (fallback_config WEBM_OPUS 44100, Raised),
       (fallback_config WEBM_OPUS 16000, Raised), (fallback_config WEBM_OPUS 8000, Raised),
       (fallback_config MP3 48000, Raised), (fallback_config MP3 44100, Raised),
       (fallback_config MP3 16000, Raised), (fallback_config MP3 8000, Raised)],
      [])"
  by code_simp

text \<open>
  Claim C4. Let the file be readable, the primary call return zero segments, and the
  client answer \<open>out2\<close>, with an alternative in every segment, to the secondary call made
  next, whose config is WEBM_OPUS at 48000 Hz with model \<open>latest_long\<close>, punctuation and
  the enhanced model. If \<open>out2\<close> has at least one segment the result is its joined
  transcript, and if it has zero segments the result is \<open>No speech detected in audio
  file\<close>; in both cases the primary and this one secondary call are the only calls. (If
  the secondary call raises, the fallback sweep follows the two calls.)
\<close>
theorem secondary_attempt:
  assumes "fs path = Inr content"
    and "stt st (primary_config (lower (snd (splitext path)))) content = (Response [], st1)"
    and "stt st1 alternative_config content = (out2, st2)"
    and "well_formed out2"
  shows "alternative_config =
           \<lparr>encoding = WEBM_OPUS, sample_rate_hertz = Some 48000, language_code = ''en-US'',
            enable_automatic_punctuation = True, use_enhanced = True, model = ''latest_long'',
            audio_channel_count = None\<rparr> \<and>
         speech_to_text fs stt path st =
           (case out2 of
              Response segments2 \<Rightarrow>
                (Inr (if segments2 \<noteq> [] then spec_transcript segments2
                      else ''No speech detected in audio file''),
                 [(primary_config (lower (snd (splitext path))), Response []),
                  (alternative_config, Response segments2)], st2)
            | Raised \<Rightarrow>
                (case except_handler stt content st2 of
                   (t, calls2, st3) \<Rightarrow>
                     (Inr t,
                      [(primary_config (lower (snd (splitext path))), Response []),
                       (alternative_config, Raised)] @ calls2, st3)))"
proof -
  have w: "well_formed (Response [])" by (simp add: well_formed_def)
  from speech_to_text_by_answers [where fs = fs and path = path and stt = stt and st = st
      and content = content and ?out1.0 = "Response []" and ?st1.0 = st1 and ?out2.0 = out2
      and ?st2.0 = st2, OF assms(1,2,3) w assms(4)]
  have "speech_to_text fs stt path st =
           (case out2 of
              Response segments2 \<Rightarrow>
                (Inr (if segments2 \<noteq> [] then spec_transcript segments2
                      else ''No speech detected in audio file''),
                 [(primary_config (lower (snd (splitext path))), Response []),
                  (alternative_config, Response segments2)], st2)
            | Raised \<Rightarrow>
                (case except_handler stt content st2 of
                   (t, calls2, st3) \<Rightarrow>
                     (Inr t,
                      [(primary_config (lower (snd (splitext path))), Response []),
                       (alternative_config, Raised)] @ calls2, st3)))"
    by (simp split: outcome.splits)
  then show ?thesis by (simp add: alternative_config_def)
qed

lemma webm_stub_primary:
  "counting only_webm_48000 0 (primary_config (lower (snd (splitext ''Test-audio.wav''))))
       [82, 73, 70, 70] = (Response [], 1)"
  by code_simp

lemma webm_stub_secondary:
  "counting only_webm_48000 1 alternative_config [82, 73, 70, 70] = (Response [Result [''hello'']], 2)"
  by code_simp

theorem secondary_attempt_witness:
  "demo_fs ''Test-audio.wav'' = Inr [82, 73, 70, 70] \<and>
   counting only_webm_48000 0 default_config [82, 73, 70, 70] = (Response [], 1) \<and>
   counting only_webm_48000 1 alternative_config [82, 73, 70, 70] = (Response [Result [''hello'']], 2) \<and>
   well_formed (Response [Result [''hello'']]) \<and>
   speech_to_text demo_fs (counting only_webm_48000) ''Test-audio.wav'' 0 =
     (Inr ''hello'',
      [(default_config, Response []), (alternative_config, Response [Result [''hello'']])], 2)"
proof -
  have f: "demo_fs ''Test-audio.wav'' = Inr [82, 73, 70, 70]"
    by (simp add: demo_fs_def)
  have p: "counting only_webm_48000 0 default_config [82, 73, 70, 70] = (Response [], 1)"
    by code_simp
  have w: "well_formed (Response [Result [''hello'']])"
    by (simp add: well_formed_def)
  have t: "spec_transcript [Result [''hello'']] = ''hello''"
    by (simp add: spec_transcript_def first_alternative_def)
  have e: "primary_config (lower (snd (splitext ''Test-audio.wav''))) = default_config"
    by (simp add: ext_demo_wav primary_config_def)
  from secondary_attempt [where fs = demo_fs and path = "''Test-audio.wav''"
      and stt = "counting only_webm_48000" and st = 0 and ?st1.0 = 1 and ?st2.0 = 2
      and content = "[82, 73, 70, 70]" and ?out2.0 = "Response [Result [''hello'']]",
      OF f webm_stub_primary webm_stub_secondary w, THEN conjunct2]
  have "speech_to_text demo_fs (counting only_webm_48000) ''Test-audio.wav'' 0 =
     (Inr ''hello'',
      [(default_config, Response []), (alternative_config, Response [Result [''hello'']])], 2)"
    by (simp add: t e)
  with f p w webm_stub_secondary show ?thesis by simp
qed


section \<open>The claims on \<open>clean_llm_json\<close>\<close>

lemma clean_llm_json_Parsed:
  "truthy response \<Longrightarrow>
     loads (strip (re_sub fence_pattern False (response_text response))) = Parsed v \<Longrightarrow>
     clean_llm_json loads response = Inr (Some v)"
  by (simp add: clean_llm_json_def)

lemma clean_llm_json_Raises:
  "truthy response \<Longrightarrow>
     loads (strip (re_sub fence_pattern False (response_text response))) = Raises e \<Longrightarrow>
     clean_llm_json loads response = Inl e"
  by (simp add: clean_llm_json_def)

lemma fenced_backticks_cleaned:
  \<open>strip (re_sub fence_pattern False ''```json\<newline>{"a": "```x```"}\<newline>```'') = ''{"a": "x"}''\<close>
  by code_simp

lemma plain_backticks_cleaned:
  \<open>strip (re_sub fence_pattern False ''{"a": "```x```"}'') = ''{"a": "x"}''\<close>
  by code_simp

text \<open>
  Claim C9, at the inputs where the code departs from it. Take the valid JSON object
  whose member \<open>a\<close> is a string of an \<open>x\<close> between two runs of three backticks. Wrapped
  in a \<open>json\<close> code fence, and also given plain, it makes \<open>re.sub\<close> of line 32 match
  fences inside the string, so that \<open>json.loads\<close> is asked about the object whose
  member \<open>a\<close> is the string \<open>x\<close>: for every \<open>json.loads\<close> that parses that text to a
  value \<open>v\<close>, \<open>clean_llm_json\<close> returns \<open>v\<close> on both inputs, which is not the value of
  the JSON it was given.
\<close>
theorem clean_llm_json_backticks_in_string:
  assumes \<open>loads ''{"a": "x"}'' = Parsed v\<close>
  shows \<open>clean_llm_json loads (PyStr ''```json\<newline>{"a": "```x```"}\<newline>```'') = Inr (Some v) \<and>
         clean_llm_json loads (PyStr ''{"a": "```x```"}'') = Inr (Some v)\<close>
proof
  show \<open>clean_llm_json loads (PyStr ''```json\<newline>{"a": "```x```"}\<newline>```'') = Inr (Some v)\<close>
    by (rule clean_llm_json_Parsed) (simp_all only: response_text.simps fenced_backticks_cleaned assms, simp)
  show \<open>clean_llm_json loads (PyStr ''{"a": "```x```"}'') = Inr (Some v)\<close>
    by (rule clean_llm_json_Parsed) (simp_all only: response_text.simps plain_backticks_cleaned assms, simp)
qed

theorem clean_llm_json_backticks_in_string_witness:
  \<open>loads_table ''{"a": "x"}'' = Parsed (JObject [(''a'', JString ''x'')]) \<and>
   loads_table ''{"a": "```x```"}'' = Parsed (JObject [(''a'', JString ''```x```'')]) \<and>
   clean_llm_json loads_table (PyStr ''```json\<newline>{"a": "```x```"}\<newline>```'') =
     Inr (Some (JObject [(''a'', JString ''x'')])) \<and>
   clean_llm_json loads_table (PyStr ''{"a": "```x```"}'') =
     Inr (Some (JObject [(''a'', JString ''x'')]))\<close>
proof -
  have a: \<open>loads_table ''{"a": "x"}'' = Parsed (JObject [(''a'', JString ''x'')])\<close>
    by (simp add: loads_table_def)
  have b: \<open>loads_table ''{"a": "```x```"}'' = Parsed (JObject [(''a'', JString ''```x```'')])\<close>
    by (simp add: loads_table_def)
  from clean_llm_json_backticks_in_string [where loads = loads_table, OF a] a b show ?thesis
    by simp
qed


lemma matches_fence_no_backtick:
  "s = [] \<or> hd s \<noteq> CHR ''`'' \<Longrightarrow> matches fence_pattern (s, g) = []"
  by (cases s) (auto simp: fence_pattern_def)

lemma re_sub_no_backtick:
  "CHR ''`'' \<notin> set s \<Longrightarrow> re_sub fence_pattern must_advance s = s"
proof (induction s arbitrary: must_advance)
  case Nil
  show ?case
    by (subst re_sub.simps) (simp add: matches_fence_no_backtick)
next
  case (Cons x xs)
  then have "re_sub fence_pattern False xs = xs" and "x \<noteq> CHR ''`''"
    by auto
  then show ?case
    by (subst re_sub.simps) (simp add: matches_fence_no_backtick)
qed

lemma strip_no_outer_space:
  assumes "s \<noteq> []" and "\<not> isspace (hd s)" and "\<not> isspace (last s)"
  shows "strip s = s"
proof -
  from assms(1,2) have a: "dropWhile isspace s = s"
    by (cases s) simp_all
  from assms(1,3) have b: "dropWhile isspace (rev s) = rev s"
    by (cases "rev s") (simp_all add: hd_rev [symmetric])
  from a b show ?thesis by (simp add: strip_def)
qed

text \<open>
  Claim C10, at the inputs where the code departs from it. Only \<open>JSONDecodeError\<close> is
  caught (lines 39 and 45). On a non-empty string without backtick and without white
  space at either end, \<open>json.loads\<close> is called on the string itself, and whatever other
  exception it raises there leaves \<open>clean_llm_json\<close>. The lemmas \<open>clean_llm_json_falsy\<close>
  and \<open>clean_llm_json_returns\<close> below give the rest of the claim: a falsy argument
  returns \<open>None\<close>, and when \<open>json.loads\<close> raises nothing but \<open>JSONDecodeError\<close> the
  function returns a value or \<open>None\<close>.
\<close>
theorem clean_llm_json_raises:
  assumes "s \<noteq> []"
    and "CHR ''`'' \<notin> set s"
    and "\<not> isspace (hd s)"
    and "\<not> isspace (last s)"
    and "loads s = Raises e"
  shows "clean_llm_json loads (PyStr s) = Inl e"
proof (rule clean_llm_json_Raises)
  show "truthy (PyStr s)" using assms(1) by simp
  show "loads (strip (re_sub fence_pattern False (response_text (PyStr s)))) = Raises e"
    using assms by (simp add: re_sub_no_backtick strip_no_outer_space)
qed

lemma long_literal_raises:
  "loads_digits 4300 (replicate 4301 CHR ''1'') = Raises ValueError"
  by (simp add: loads_digits_def list_all_iff)

theorem clean_llm_json_raises_witness:
  "loads_digits 4300 (replicate 4301 CHR ''1'') = Raises ValueError \<and>
   clean_llm_json (loads_digits 4300) (PyStr (replicate 4301 CHR ''1'')) = Inl ValueError"
proof -
  have a: "replicate 4301 CHR ''1'' \<noteq> []" by simp
  have b: "CHR ''`'' \<notin> set (replicate 4301 CHR ''1'')" by simp
  have c: "\<not> isspace (hd (replicate 4301 CHR ''1''))"
    by (simp add: hd_replicate isspace_def)
  have d: "\<not> isspace (last (replicate 4301 CHR ''1''))"
    by (simp add: last_replicate isspace_def)
  from clean_llm_json_raises [where loads = "loads_digits 4300", OF a b c d long_literal_raises]
    long_literal_raises
  show ?thesis by simp
qed


lemma matches_json_group:
  "(r, g) \<in> set (matches json_pattern m) \<Longrightarrow> g \<noteq> None"
  by (cases m) (auto simp: json_pattern_def)

lemma re_search_json_group:
  "re_search json_pattern s = Some (r, g) \<Longrightarrow> g \<noteq> None"
proof (induction s)
  case Nil
  then show ?case
    using matches_json_group [of r g "([], None)"]
    by (auto split: list.splits)
next
  case (Cons x xs)
  then show ?case
    using matches_json_group [of r g "(x # xs, None)"]
    by (auto split: list.splits)
qed

lemma clean_llm_json_falsy:
  "clean_llm_json loads PyNone = Inr None" "clean_llm_json loads (PyStr []) = Inr None"
  by (simp_all add: clean_llm_json_def)

lemma clean_llm_json_returns:
  assumes "\<And>s e. loads s \<noteq> Raises e"
  shows "\<exists>r. clean_llm_json loads response = Inr r"
proof (cases "truthy response")
  case False
  then show ?thesis by (simp add: clean_llm_json_def)
next
  case True
  let ?text = "response_text response"
  show ?thesis
  proof (cases "loads (strip (re_sub fence_pattern False ?text))")
    case (Parsed v)
    with True show ?thesis by (simp add: clean_llm_json_def)
  next
    case (Raises e)
    with assms show ?thesis by simp
  next
    case JSONDecodeError
    show ?thesis
    proof (cases "re_search json_pattern ?text")
      case None
      with True JSONDecodeError show ?thesis by (simp add: clean_llm_json_def)
    next
      case (Some m)
      obtain r g where m: "m = (r, g)" by (cases m) auto
      with Some re_search_json_group [of ?text r g] obtain t where g: "g = Some t" by auto
      from assms [of t] have "\<exists>r. (case loads t of Parsed v \<Rightarrow> Inr (Some v)
            | JSONDecodeError \<Rightarrow> Inr None | Raises e \<Rightarrow> Inl e) = (Inr r :: error + 'a option)"
        by (cases "loads t") auto
      with True JSONDecodeError Some m g show ?thesis
        by (simp add: clean_llm_json_def)
    qed
  qed
qed

end
